theory Spec2Isabelle
  imports Main "HOL-Library.Sublist" "HOL-Library.AList"
begin

section \<open>Errors\<close>

text \<open>
  The error values the store can return.  \<open>ErrNotExist\<close> and \<open>ErrExist\<close> are the
  operating system's sentinel errors, \<open>ErrConcurrentMod\<close> is the store's own sentinel,
  \<open>IOError\<close> stands for every other failure of a file operation, \<open>EncodingError\<close>
  for a failure of the JSON decoder, \<open>ApplyError\<close> for an error returned by the
  caller's update function, \<open>ErrRootNotEmpty\<close> for the error built in \<open>Open\<close>, and
  \<open>Wrapped\<close> for an error wrapped by \<open>fmt.Errorf\<close> with \<open>%w\<close>.
\<close>

datatype error =
    ErrNotExist
  | ErrExist
  | ErrConcurrentMod
  | IOError
  | EncodingError
  | ApplyError
  | ErrRootNotEmpty
  | Wrapped error

section \<open>Paths (package path/filepath, slash as separator)\<close>

text \<open>
  A cleaned path is kept as a pair: whether it is rooted (starts with a slash) and its
  list of segments.  \<open>(False, [])\<close> is the path \<open>.\<close> and \<open>(True, [])\<close> is \<open>/\<close>.
  Symbolic links are not modelled, so a path names the node its cleaned form names.
\<close>

type_synonym path = "bool \<times> string list"

fun split_slash :: "string \<Rightarrow> string list" where
  "split_slash [] = [[]]"
| "split_slash (c # cs) =
     (if c = CHR ''/'' then [] # split_slash cs
      else (c # hd (split_slash cs)) # tl (split_slash cs))"

definition clean_step :: "bool \<Rightarrow> string list \<Rightarrow> string \<Rightarrow> string list" where
  "clean_step rooted stk s =
     (if s = [] \<or> s = ''.'' then stk
      else if s = ''..'' then
        (if stk \<noteq> [] \<and> last stk \<noteq> ''..'' then butlast stk
         else if rooted then stk
         else stk @ [''..''])
      else stk @ [s])"

definition is_rooted :: "string \<Rightarrow> bool" where
  "is_rooted s = (s \<noteq> [] \<and> hd s = CHR ''/'')"

definition Clean :: "string \<Rightarrow> path" where
  "Clean s = (is_rooted s, foldl (clean_step (is_rooted s)) [] (split_slash s))"

fun join_slash :: "string list \<Rightarrow> string" where
  "join_slash [] = []"
| "join_slash [e] = e"
| "join_slash (e # es) = e @ CHR ''/'' # join_slash es"

text \<open>
  \<open>filepath.Join\<close> skips the leading empty elements, joins the rest with slashes and
  cleans the result.  (When every element is empty Go returns the empty string; here
  that corner is the path \<open>.\<close>.)
\<close>

definition Join :: "string list \<Rightarrow> path" where
  "Join elems = Clean (join_slash (dropWhile (\<lambda>e. e = []) elems))"

definition ToSlash :: "string \<Rightarrow> string" where
  "ToSlash s = s"

definition render :: "path \<Rightarrow> string" where
  "render p =
     (if snd p = [] then (if fst p then ''/'' else ''.'')
      else (if fst p then ''/'' else []) @ join_slash (snd p))"

definition Dir :: "string \<Rightarrow> string" where
  "Dir p = render (Clean (rev (dropWhile (\<lambda>c. c \<noteq> CHR ''/'') (rev p))))"

definition Base :: "string \<Rightarrow> string" where
  "Base p =
     (if p = [] then ''.''
      else let q = rev (dropWhile (\<lambda>c. c = CHR ''/'') (rev p));
               b = rev (takeWhile (\<lambda>c. c \<noteq> CHR ''/'') (rev q))
           in if b = [] then ''/'' else b)"

definition HasSuffix :: "string \<Rightarrow> string \<Rightarrow> bool" where
  "HasSuffix s suf = (length suf \<le> length s \<and> drop (length s - length suf) s = suf)"

definition keyPath :: "string \<Rightarrow> string \<Rightarrow> path" where
  "keyPath root key = Join [root, ToSlash key]"

definition lockPath :: "string \<Rightarrow> string \<Rightarrow> path" where
  "lockPath root key = Join [root, ToSlash key @ ''...lock'']"

definition under :: "path \<Rightarrow> path \<Rightarrow> bool" where
  "under r p = (fst p = fst r \<and> strict_prefix (snd r) (snd p))"

section \<open>Stored entries and their JSON encoding\<close>

record 'd dbEntry =
  version :: int
  doc :: "'d option"

text \<open>
  The version is a Go \<open>int\<close> and an \<open>int\<close> here: the only arithmetic on it is
  \<open>old.version + 1\<close>, and every version that is read from a file is 0 (lemma
  \<open>get_version_zero\<close> below), so the sum does not wrap.

  A file holds either one JSON object, kept as its list of members, or bytes that do
  not decode (\<open>Invalid\<close>, which includes the empty file).
\<close>

datatype 'd jvalue = JNull | JNum int | JDoc 'd

datatype 'd content = Invalid | JObject "(string \<times> 'd jvalue) list"

text \<open>
  Package encoding/json encodes and decodes only the exported fields of a struct, the
  ones whose name starts with an upper-case letter.  The fields of \<open>dbEntry\<close> are
  declared as \<open>version\<close> and \<open>doc\<close>.
\<close>

definition exported :: "string \<Rightarrow> bool" where
  "exported n = (n \<noteq> [] \<and> hd n \<in> set ''ABCDEFGHIJKLMNOPQRSTUVWXYZ'')"

definition dbEntry_fields :: "'d dbEntry \<Rightarrow> (string \<times> 'd jvalue) list" where
  "dbEntry_fields e =
     [(''version'', JNum (version e)),
      (''doc'', (case doc e of None \<Rightarrow> JNull | Some d \<Rightarrow> JDoc d))]"

definition Encode :: "'d dbEntry \<Rightarrow> 'd content" where
  "Encode e = JObject (filter (\<lambda>m. exported (fst m)) (dbEntry_fields e))"

definition decode_member :: "'d dbEntry \<Rightarrow> string \<times> 'd jvalue \<Rightarrow> error + 'd dbEntry" where
  "decode_member e m =
     (if exported ''version'' \<and> fst m = ''version'' then
        (case snd m of
           JNum i \<Rightarrow> Inr (e\<lparr>version := i\<rparr>)
         | JNull \<Rightarrow> Inr e
         | JDoc d \<Rightarrow> Inl EncodingError)
      else if exported ''doc'' \<and> fst m = ''doc'' then
        (case snd m of
           JDoc d \<Rightarrow> Inr (e\<lparr>doc := Some d\<rparr>)
         | JNull \<Rightarrow> Inr e
         | JNum i \<Rightarrow> Inl EncodingError)
      else Inr e)"

fun decode_members :: "'d dbEntry \<Rightarrow> (string \<times> 'd jvalue) list \<Rightarrow> error + 'd dbEntry" where
  "decode_members e [] = Inr e"
| "decode_members e (m # ms) =
     (case decode_member e m of
        Inl err \<Rightarrow> Inl err
      | Inr e' \<Rightarrow> decode_members e' ms)"

definition zeroEntry :: "'d dbEntry" where
  "zeroEntry = \<lparr>version = 0, doc = None\<rparr>"

definition Decode :: "'d content \<Rightarrow> error + 'd dbEntry" where
  "Decode c =
     (case c of
        Invalid \<Rightarrow> Inl EncodingError
      | JObject ms \<Rightarrow> decode_members zeroEntry ms)"

section \<open>The directory tree\<close>

text \<open>
  The file system is an association list from cleaned paths to nodes.  Permissions,
  quotas and symbolic links are not modelled; a failure that comes from them is a
  flag of the chance record of an attempt (below).  A path that is not in the tree
  fails with \<open>ErrNotExist\<close>, unless one of its proper ancestors is a regular file:
  then the operating system reports that a component is not a directory, which is
  not \<open>ErrNotExist\<close> (\<open>missing\<close>).  \<open>ReadDir\<close> lists the children of a directory in
  the order of the association list (Go sorts them by name; the statements below are
  about the set of names).
\<close>

datatype 'd node = Directory | File "'d content"

type_synonym 'd fs = "(path \<times> 'd node) list"

definition is_dir :: "'d node \<Rightarrow> bool" where
  "is_dir n = (case n of Directory \<Rightarrow> True | File c \<Rightarrow> False)"

definition parent :: "path \<Rightarrow> path" where
  "parent p = (fst p, butlast (snd p))"

definition below_file :: "'d fs \<Rightarrow> path \<Rightarrow> bool" where
  "below_file fs p =
     list_ex (\<lambda>q. case map_of fs (fst p, q) of Some (File c) \<Rightarrow> True | _ \<Rightarrow> False)
       (butlast (prefixes (snd p)))"

definition missing :: "'d fs \<Rightarrow> path \<Rightarrow> error" where
  "missing fs p = (if below_file fs p then IOError else ErrNotExist)"

definition dir_exists :: "'d fs \<Rightarrow> path \<Rightarrow> bool" where
  "dir_exists fs p = (case map_of fs p of Some Directory \<Rightarrow> True | _ \<Rightarrow> False)"

definition ReadDir :: "'d fs \<Rightarrow> path \<Rightarrow> error + (string \<times> bool) list" where
  "ReadDir fs d =
     (case map_of fs d of
        None \<Rightarrow> Inl (missing fs d)
      | Some (File c) \<Rightarrow> Inl IOError
      | Some Directory \<Rightarrow>
          Inr (map (\<lambda>e. (last (snd (fst e)), is_dir (snd e)))
                 (filter (\<lambda>e. snd (fst e) \<noteq> [] \<and> parent (fst e) = d) fs)))"

definition Mkdir :: "'d fs \<Rightarrow> path \<Rightarrow> error + 'd fs" where
  "Mkdir fs p =
     (case map_of fs p of
        Some n \<Rightarrow> Inl ErrExist
      | None \<Rightarrow>
          if snd p \<noteq> [] \<and> dir_exists fs (parent p) then Inr (fs @ [(p, Directory)])
          else Inl (missing fs p))"

definition has_children :: "'d fs \<Rightarrow> path \<Rightarrow> bool" where
  "has_children fs d = list_ex (\<lambda>e. snd (fst e) \<noteq> [] \<and> parent (fst e) = d) fs"

definition Remove :: "'d fs \<Rightarrow> path \<Rightarrow> 'd fs \<times> error option" where
  "Remove fs p =
     (case map_of fs p of
        None \<Rightarrow> (fs, Some (missing fs p))
      | Some (File c) \<Rightarrow> (AList.delete p fs, None)
      | Some Directory \<Rightarrow>
          if has_children fs p then (fs, Some IOError) else (AList.delete p fs, None))"

definition Rename :: "'d fs \<Rightarrow> path \<Rightarrow> path \<Rightarrow> 'd fs \<times> error option" where
  "Rename fs src dst =
     (case map_of fs src of
        None \<Rightarrow> (fs, Some (missing fs src))
      | Some Directory \<Rightarrow> (fs, Some IOError)
      | Some (File c) \<Rightarrow>
          if dir_exists fs dst then (fs, Some IOError)
          else if \<not> dir_exists fs (parent dst) then (fs, Some (missing fs dst))
          else if src = dst then (fs, None)
          else (AList.update dst (File c) (AList.delete src fs), None))"

section \<open>The store\<close>

record DB =
  root :: string

definition Open :: "string \<Rightarrow> 'd fs \<Rightarrow> 'd fs \<times> DB option \<times> error option" where
  "Open rt fs =
     (let initPath = Join [rt, ''.filedb''] in
      case (if rt = [] then Inl ErrNotExist else ReadDir fs (Clean rt)) of
        Inl err \<Rightarrow> (fs, None, Some err)
      | Inr ents \<Rightarrow>
          if length ents = 0 then
            (case Mkdir fs initPath of
               Inl err \<Rightarrow> (fs, None, Some (Wrapped err))
             | Inr fs' \<Rightarrow> (fs', Some \<lparr>root = rt\<rparr>, None))
          else
            (case map_of fs initPath of
               None \<Rightarrow> (fs, None, Some ErrRootNotEmpty)
             | Some n \<Rightarrow> (fs, Some \<lparr>root = rt\<rparr>, None)))"

definition get :: "DB \<Rightarrow> string \<Rightarrow> 'd fs \<Rightarrow> 'd dbEntry \<times> error option" where
  "get db key fs =
     (case map_of fs (keyPath (root db) key) of
        None \<Rightarrow> (zeroEntry, Some (missing fs (keyPath (root db) key)))
      | Some Directory \<Rightarrow> (zeroEntry, Some IOError)
      | Some (File c) \<Rightarrow>
          (case Decode c of
             Inl err \<Rightarrow> (zeroEntry, Some err)
           | Inr e \<Rightarrow> (e, None)))"

definition Get :: "DB \<Rightarrow> string \<Rightarrow> 'd fs \<Rightarrow> 'd option \<times> error option" where
  "Get db key fs =
     (case get db key fs of
        (e, Some err) \<Rightarrow> if err = ErrNotExist then (None, None) else (None, Some err)
      | (e, None) \<Rightarrow> (doc e, None))"

definition List :: "DB \<Rightarrow> string \<Rightarrow> 'd fs \<Rightarrow> string list \<times> error option" where
  "List db pfx fs =
     (case ReadDir fs (Join [root db, ToSlash pfx]) of
        Inl err \<Rightarrow> ([], Some err)
      | Inr ents \<Rightarrow>
          (map fst
             (filter (\<lambda>ent. \<not> (snd ent \<or> HasSuffix (fst ent) ''...tmp''
                                  \<or> HasSuffix (fst ent) ''...lock'')) ents),
           None))"

section \<open>One attempt of an update\<close>

text \<open>
  What an attempt cannot see in the directory tree comes from its chance record: the random
  strings that \<open>os.CreateTemp\<close> tries in turn, whether writing or closing the staged
  file, taking the lock or renaming fails for a reason outside the model, and what
  the other writers do to the tree while this attempt waits for the lock.
\<close>

record 'd chance =
  rands :: "string list"
  write_fails :: bool
  close_fails :: bool
  lock_fails :: bool
  rename_fails :: bool
  others :: "'d fs \<Rightarrow> 'd fs"

definition exists_at :: "'d fs \<Rightarrow> path \<Rightarrow> bool" where
  "exists_at fs p = (case map_of fs p of None \<Rightarrow> False | Some n \<Rightarrow> True)"

definition child :: "path \<Rightarrow> string \<Rightarrow> path" where
  "child d n = (fst d, snd d @ [n])"

definition prefixAndSuffix :: "string \<Rightarrow> string \<times> string" where
  "prefixAndSuffix pattern =
     (if CHR ''*'' \<in> set pattern then
        (rev (tl (dropWhile (\<lambda>c. c \<noteq> CHR ''*'') (rev pattern))),
         rev (takeWhile (\<lambda>c. c \<noteq> CHR ''*'') (rev pattern)))
      else (pattern, []))"

definition CreateTemp :: "'d fs \<Rightarrow> path \<Rightarrow> string \<Rightarrow> string list \<Rightarrow> error + ('d fs \<times> path)" where
  "CreateTemp fs dir pattern rnds =
     (if CHR ''/'' \<in> set pattern then Inl IOError
      else if \<not> dir_exists fs dir then
        Inl (missing fs (child dir (fst (prefixAndSuffix pattern))))
      else
        (case find (\<lambda>n. \<not> exists_at fs (child dir n))
                (map (\<lambda>r. fst (prefixAndSuffix pattern) @ r @ snd (prefixAndSuffix pattern))
                   (take 10000 rnds)) of
           None \<Rightarrow> Inl ErrExist
         | Some n \<Rightarrow> Inr (fs @ [(child dir n, File Invalid)], child dir n)))"

definition tmpFile :: "string \<Rightarrow> string \<Rightarrow> 'd fs \<Rightarrow> string list \<Rightarrow> error + ('d fs \<times> path)" where
  "tmpFile rt key fs rnds =
     CreateTemp fs (Join [rt, Dir (ToSlash key)]) (Base (ToSlash key) @ ''...tmp.*'') rnds"

definition Lock :: "'d fs \<Rightarrow> path \<Rightarrow> bool \<Rightarrow> error + 'd fs" where
  "Lock fs lp fails =
     (if fails then Inl IOError
      else
        (case map_of fs lp of
           Some Directory \<Rightarrow> Inl IOError
         | Some (File c) \<Rightarrow> Inr fs
         | None \<Rightarrow>
             if snd lp \<noteq> [] \<and> dir_exists fs (parent lp) then Inr (fs @ [(lp, File Invalid)])
             else Inl (missing fs lp)))"

text \<open>
  The part of \<open>do\<close> that runs once the temporary file \<open>f\<close> exists: encode, close, lock,
  read again, compare the versions, rename.  The deferred removal of \<open>f\<close> is applied
  to its result in \<open>do\<close>.
\<close>

definition do_staged ::
  "DB \<Rightarrow> string \<Rightarrow> 'd chance \<Rightarrow> int \<Rightarrow> 'd \<Rightarrow> path \<Rightarrow> 'd fs \<Rightarrow> 'd fs \<times> 'd option \<times> error option" where
  "do_staged db key orc oldv nd f fs1 =
     (if write_fails orc then (fs1, None, Some IOError)
      else
        let fs2 = AList.update f (File (Encode \<lparr>version = oldv + 1, doc = Some nd\<rparr>)) fs1 in
        if close_fails orc then (fs2, None, Some IOError)
        else
          let fs3 = others orc fs2 in
          (case Lock fs3 (lockPath (root db) key) (lock_fails orc) of
             Inl lerr \<Rightarrow> (fs3, None, Some lerr)
           | Inr fs4 \<Rightarrow>
               (case get db key fs4 of
                  (neww, gerr) \<Rightarrow>
                    if gerr \<noteq> None \<and> gerr \<noteq> Some ErrNotExist then (fs4, None, gerr)
                    else if version neww \<noteq> oldv then (fs4, None, Some ErrConcurrentMod)
                    else if rename_fails orc then (fs4, Some nd, Some IOError)
                    else
                      (case Rename fs4 f (keyPath (root db) key) of
                         (fs5, rerr) \<Rightarrow> (fs5, Some nd, rerr)))))"

definition do ::
  "DB \<Rightarrow> string \<Rightarrow> ('d option \<Rightarrow> 'd option \<times> error option) \<Rightarrow> 'd chance \<Rightarrow> 'd fs
     \<Rightarrow> 'd fs \<times> 'd option \<times> error option" where
  "do db key apply orc fs =
     (case get db key fs of
        (old, err) \<Rightarrow>
          if err \<noteq> None \<and> err \<noteq> Some ErrNotExist then (fs, None, err)
          else
            (case apply (doc old) of
               (newDoc, aerr) \<Rightarrow>
                 if aerr \<noteq> None then (fs, None, aerr)
                 else
                   (case newDoc of
                      None \<Rightarrow>
                        (case Remove fs (keyPath (root db) key) of
                           (fs1, rerr) \<Rightarrow>
                             (case rerr of
                                None \<Rightarrow> (fs1, None, None)
                              | Some e \<Rightarrow>
                                  if e = ErrNotExist then (fs1, None, None)
                                  else (fs1, None, Some (Wrapped e))))
                    | Some nd \<Rightarrow>
                        (case tmpFile (root db) key fs (rands orc) of
                           Inl terr \<Rightarrow> (fs, None, Some terr)
                         | Inr (fs1, f) \<Rightarrow>
                             (case do_staged db key orc (version old) nd f fs1 of
                                (fs', res) \<Rightarrow> (fst (Remove fs' f), res))))))"

section \<open>The retry loops\<close>

text \<open>
  The loops may run forever, so they return an option and \<open>None\<close> is the run that never
  returns.  Attempt number \<open>n\<close> uses the chance record \<open>orcs n\<close>.  The sleep between attempts
  has no effect on the tree and is left out.  \<open>Update_generic\<close> is the loop of the
  generic store (the first variant of the source), \<open>Update\<close> the loop with a retry
  budget (the second variant).  In the generic store the sentinel error is local to
  \<open>Update\<close>, so there the caller's function cannot return \<open>ErrConcurrentMod\<close>.
\<close>

partial_function (option) Update_generic_loop ::
  "DB \<Rightarrow> string \<Rightarrow> ('d option \<Rightarrow> 'd option \<times> error option) \<Rightarrow> (nat \<Rightarrow> 'd chance) \<Rightarrow> nat \<Rightarrow> 'd fs
     \<Rightarrow> ('d fs \<times> 'd option \<times> error option) option" where
  "Update_generic_loop db key apply orcs n fs =
     (case do db key apply (orcs n) fs of
        (fs', d, err) \<Rightarrow>
          if err = None \<or> err \<noteq> Some ErrConcurrentMod then Some (fs', d, err)
          else Update_generic_loop db key apply orcs (Suc n) fs')"

definition Update_generic ::
  "DB \<Rightarrow> string \<Rightarrow> ('d option \<Rightarrow> 'd option \<times> error option) \<Rightarrow> (nat \<Rightarrow> 'd chance) \<Rightarrow> 'd fs
     \<Rightarrow> ('d fs \<times> 'd option \<times> error option) option" where
  "Update_generic db key apply orcs fs = Update_generic_loop db key apply orcs 0 fs"

definition Set_generic ::
  "DB \<Rightarrow> string \<Rightarrow> 'd option \<Rightarrow> (nat \<Rightarrow> 'd chance) \<Rightarrow> 'd fs \<Rightarrow> ('d fs \<times> error option) option" where
  "Set_generic db key d orcs fs =
     map_option (\<lambda>r. (fst r, snd (snd r))) (Update_generic db key (\<lambda>x. (d, None)) orcs fs)"

definition Delete_generic ::
  "DB \<Rightarrow> string \<Rightarrow> (nat \<Rightarrow> 'd chance) \<Rightarrow> 'd fs \<Rightarrow> ('d fs \<times> error option) option" where
  "Delete_generic db key orcs fs =
     map_option (\<lambda>r. (fst r, snd (snd r))) (Update_generic db key (\<lambda>x. (None, None)) orcs fs)"

partial_function (option) Update_loop ::
  "DB \<Rightarrow> string \<Rightarrow> ('d option \<Rightarrow> 'd option \<times> error option) \<Rightarrow> int \<Rightarrow> (nat \<Rightarrow> 'd chance) \<Rightarrow> int \<Rightarrow> 'd fs
     \<Rightarrow> ('d fs \<times> 'd option \<times> error option) option" where
  "Update_loop db key apply retries orcs i fs =
     (if retries < 0 \<or> i < retries then
        (case do db key apply (orcs (nat i)) fs of
           (fs', d, err) \<Rightarrow>
             if err = None \<or> err \<noteq> Some ErrConcurrentMod then Some (fs', d, err)
             else Update_loop db key apply retries orcs (i + 1) fs')
      else Some (fs, None, Some ErrConcurrentMod))"

definition Update ::
  "DB \<Rightarrow> string \<Rightarrow> ('d option \<Rightarrow> 'd option \<times> error option) \<Rightarrow> int \<Rightarrow> (nat \<Rightarrow> 'd chance) \<Rightarrow> 'd fs
     \<Rightarrow> ('d fs \<times> 'd option \<times> error option) option" where
  "Update db key apply retries orcs fs = Update_loop db key apply retries orcs 0 fs"

definition SetWithRetry ::
  "DB \<Rightarrow> string \<Rightarrow> 'd option \<Rightarrow> int \<Rightarrow> (nat \<Rightarrow> 'd chance) \<Rightarrow> 'd fs \<Rightarrow> ('d fs \<times> error option) option" where
  "SetWithRetry db key d retries orcs fs =
     map_option (\<lambda>r. (fst r, snd (snd r))) (Update db key (\<lambda>x. (d, None)) retries orcs fs)"

definition Set :: "DB \<Rightarrow> string \<Rightarrow> 'd option \<Rightarrow> (nat \<Rightarrow> 'd chance) \<Rightarrow> 'd fs \<Rightarrow> ('d fs \<times> error option) option" where
  "Set db key d orcs fs = SetWithRetry db key d 0 orcs fs"

definition Delete :: "DB \<Rightarrow> string \<Rightarrow> (nat \<Rightarrow> 'd chance) \<Rightarrow> 'd fs \<Rightarrow> ('d fs \<times> error option) option" where
  "Delete db key orcs fs =
     map_option (\<lambda>r. (fst r, snd (snd r))) (Update db key (\<lambda>x. (None, None)) 0 orcs fs)"

text \<open>The chance record of an undisturbed attempt, and a store directory that is empty.\<close>

definition quiet :: "'d chance" where
  "quiet = \<lparr>rands = [''123'', ''456''], write_fails = False, close_fails = False,
            lock_fails = False, rename_fails = False, others = (\<lambda>fs. fs)\<rparr>"

definition emptyRoot :: "'d fs" where
  "emptyRoot = [((True, [''db'']), Directory)]"

section \<open>Scenarios\<close>

text \<open>The store of the scenarios, and an update function that adds one (no document counts as 0).\<close>

definition db0 :: DB where
  "db0 = \<lparr>root = ''/db''\<rparr>"

definition increment :: "int option \<Rightarrow> int option \<times> error option" where
  "increment d = (Some ((case d of None \<Rightarrow> 0 | Some n \<Rightarrow> n) + 1), None)"

definition storeWithK :: "int fs" where
  "storeWithK = [((True, [''db'']), Directory),
                 ((True, [''db'', ''k...lock'']), File Invalid),
                 ((True, [''db'', ''k'']), File (JObject []))]"

definition storeNoMarker :: "int fs" where
  "storeNoMarker = [((True, [''db'']), Directory),
                    ((True, [''db'', ''a'']), File (JObject []))]"

definition storeWithSubdir :: "int fs" where
  "storeWithSubdir = [((True, [''db'']), Directory),
                      ((True, [''db'', ''.filedb'']), Directory),
                      ((True, [''db'', ''a'']), File (JObject [])),
                      ((True, [''db'', ''a...lock'']), File Invalid),
                      ((True, [''db'', ''sub'']), Directory),
                      ((True, [''db'', ''sub'', ''x'']), File (JObject [])),
                      ((True, [''db'', ''sub'', ''deep'']), Directory),
                      ((True, [''db'', ''sub'', ''deep'', ''y'']), File (JObject []))]"

declare Update_generic_loop.simps [code]
declare Update_loop.simps [code]

section \<open>Unfolding the model on concrete inputs\<close>

lemmas path_defs = keyPath_def lockPath_def Join_def Clean_def is_rooted_def clean_step_def
  ToSlash_def Dir_def Base_def render_def parent_def child_def HasSuffix_def under_def

lemmas fs_defs = below_file_def missing_def dir_exists_def exists_at_def ReadDir_def Mkdir_def has_children_def Remove_def
  Rename_def CreateTemp_def prefixAndSuffix_def tmpFile_def Lock_def is_dir_def

lemmas codec_defs = Encode_def Decode_def dbEntry_fields_def exported_def decode_member_def
  zeroEntry_def

lemmas store_defs = Open_def get_def Get_def List_def do_def do_staged_def quiet_def emptyRoot_def
  Update_generic_def Update_generic_loop.simps Set_generic_def Delete_generic_def
  Update_def Update_loop.simps SetWithRetry_def Set_def Delete_def

lemmas scenario_defs = db0_def increment_def storeWithK_def storeNoMarker_def storeWithSubdir_def

section \<open>What the encoding keeps of an entry\<close>

text \<open>
  Neither field of \<open>dbEntry\<close> is exported, so every entry is written as the empty JSON
  object and every JSON object is read back as the zero entry.
\<close>

lemma Encode_is_empty_object: "Encode e = JObject []"
  by (simp add: Encode_def dbEntry_fields_def exported_def)

lemma decode_member_keeps: "decode_member e m = Inr e"
  by (simp add: decode_member_def exported_def)

lemma decode_members_keeps: "decode_members e ms = Inr e"
  by (induction ms) (simp_all add: decode_member_keeps)

lemma Decode_object_is_zero: "Decode (JObject ms) = Inr zeroEntry"
  by (simp add: Decode_def decode_members_keeps)

lemma get_version_zero: "version (fst (get db key fs)) = 0"
  by (simp add: get_def zeroEntry_def Decode_def decode_members_keeps
      split: option.split node.split content.split)

lemma get_doc_absent: "doc (fst (get db key fs)) = None"
  by (simp add: get_def zeroEntry_def Decode_def decode_members_keeps
      split: option.split node.split content.split)

lemma Get_returns_no_document: "fst (Get db key fs) = None"
proof -
  obtain e err where g: "get db key fs = (e, err)"
    by (cases "get db key fs")
  with get_doc_absent [of db key fs] have "doc e = None"
    by simp
  with g show ?thesis
    by (simp add: Get_def split: option.split)
qed

section \<open>No attempt reports a conflict\<close>

text \<open>
  Both reads of an attempt return version 0, so the comparison of the versions never
  fails: unless the caller's function itself returns \<open>ErrConcurrentMod\<close>, an attempt
  does not end in that error, and \<open>Update\<close> with a budget other than 0 returns after
  its first attempt.
\<close>

lemma missing_not_conflict [simp]: "missing fs p \<noteq> ErrConcurrentMod"
  by (simp add: missing_def)

lemma get_result:
  "get db key fs = (e, err) \<Longrightarrow> version e = 0 \<and> doc e = None \<and> err \<noteq> Some ErrConcurrentMod"
  by (auto simp add: get_def Decode_def decode_members_keeps zeroEntry_def
      split: option.splits node.splits content.splits)

lemma Lock_error_not_conflict: "Lock fs lp b = Inl e \<Longrightarrow> e \<noteq> ErrConcurrentMod"
  by (auto simp add: Lock_def split: option.splits node.splits if_splits)

lemma Rename_error_not_conflict: "Rename fs src dst = (fs5, err) \<Longrightarrow> err \<noteq> Some ErrConcurrentMod"
  by (auto simp add: Rename_def split: option.splits node.splits if_splits)

lemma do_staged_never_conflicts:
  "do_staged db key orc 0 nd f fs1 = (fsn, d, err) \<Longrightarrow> err \<noteq> Some ErrConcurrentMod"
  by (auto simp add: do_staged_def Let_def split: sum.splits prod.splits if_splits
      dest: get_result Lock_error_not_conflict Rename_error_not_conflict)

lemma tmpFile_error_not_conflict: "tmpFile rt key fs rnds = Inl e \<Longrightarrow> e \<noteq> ErrConcurrentMod"
  by (auto simp add: tmpFile_def CreateTemp_def split: option.splits if_splits)

lemma do_never_conflicts:
  assumes "\<And>x. snd (apply x) \<noteq> Some ErrConcurrentMod"
    and "do db key apply orc fs = (fs', d, err)"
  shows "err \<noteq> Some ErrConcurrentMod"
proof -
  obtain old gerr where g: "get db key fs = (old, gerr)"
    by (cases "get db key fs")
  from get_result [OF g] have v: "version old = 0" and ge: "gerr \<noteq> Some ErrConcurrentMod"
    by simp_all
  obtain nd aerr where a: "apply (doc old) = (nd, aerr)"
    by (cases "apply (doc old)")
  with assms(1) [of "doc old"] have ae: "aerr \<noteq> Some ErrConcurrentMod"
    by simp
  show ?thesis
    using assms(2) g v ge a ae
    by (auto simp add: do_def split: sum.splits prod.splits if_splits option.splits
        dest: do_staged_never_conflicts tmpFile_error_not_conflict)
qed

lemma Update_one_attempt:
  assumes "\<And>x. snd (apply x) \<noteq> Some ErrConcurrentMod"
    and "retries \<noteq> 0"
  shows "Update db key apply retries orcs fs = Some (do db key apply (orcs 0) fs)"
proof -
  obtain fs' d err where r: "do db key apply (orcs 0) fs = (fs', d, err)"
    by (cases "do db key apply (orcs 0) fs") auto
  from do_never_conflicts [OF assms(1) r] have "err \<noteq> Some ErrConcurrentMod" .
  moreover from assms(2) have "retries < 0 \<or> 0 < retries"
    by arith
  ultimately show ?thesis
    using r by (simp add: Update_def Update_loop.simps)
qed

section \<open>The retry budget\<close>

text \<open>
  Claim C1.  With \<open>retries = 0\<close> the loop condition \<open>retries < 0 || i < retries\<close> is
  false before the first iteration: \<open>Update\<close> makes no attempt at all, leaves the tree
  as it is and returns \<open>ErrConcurrentMod\<close>, whatever the key, the update function and
  the tree are.  The claim says that one full attempt is made.
\<close>

theorem Update_zero_retries_makes_no_attempt:
  "Update db key apply 0 orcs fs = Some (fs, None, Some ErrConcurrentMod)"
  by (simp add: Update_def Update_loop.simps)

section \<open>Round trip of a document\<close>

text \<open>
  Claim C2.  On a fresh store \<open>Set("key", "value")\<close> of the generic variant succeeds and
  leaves a file holding the empty JSON object; \<open>Get("key")\<close> on that tree returns no
  document and no error, not \<open>"value"\<close>.  In the variant with a retry budget \<open>Set\<close>
  (budget 0) does not succeed, and \<open>SetWithRetry\<close> with budget 1 succeeds and leaves
  the same tree.
\<close>

theorem Set_then_Get_loses_document:
  "Set_generic db0 ''key'' (Some ''value'') (\<lambda>n. quiet) emptyRoot
     = Some ([((True, [''db'']), Directory),
              ((True, [''db'', ''key...lock'']), File Invalid),
              ((True, [''db'', ''key'']), File (JObject []))], None)
   \<and> Set db0 ''key'' (Some ''value'') (\<lambda>n. quiet) emptyRoot
     = Some (emptyRoot, Some ErrConcurrentMod)
   \<and> SetWithRetry db0 ''key'' (Some ''value'') 1 (\<lambda>n. quiet) emptyRoot
     = Some ([((True, [''db'']), Directory),
              ((True, [''db'', ''key...lock'']), File Invalid),
              ((True, [''db'', ''key'']), File (JObject []))], None)
   \<and> Get db0 ''key''
         [((True, [''db'']), Directory),
          ((True, [''db'', ''key...lock'']), File Invalid),
          ((True, [''db'', ''key'']), File (JObject [])) :: (path \<times> string node)]
     = (None, None)"
  by (simp add: scenario_defs path_defs fs_defs codec_defs store_defs)

section \<open>Listing\<close>

text \<open>
  Claim C4.  The temporary file that \<open>tmpFile\<close> creates for the key \<open>a\<close> is named
  \<open>a...tmp.\<close> followed by the random string, so its name does not end in \<open>...tmp\<close>.
  When an interrupted attempt leaves it behind, \<open>List\<close> returns it as a key.
\<close>

theorem List_returns_temporary_file:
  "tmpFile ''/db'' ''a'' (emptyRoot :: nat fs) [''123'']
     = Inr ([((True, [''db'']), Directory), ((True, [''db'', ''a...tmp.123'']), File Invalid)],
            (True, [''db'', ''a...tmp.123'']))
   \<and> List \<lparr>root = ''/db''\<rparr> ''''
        [((True, [''db'']), Directory),
         ((True, [''db'', ''a...tmp.123'']), File Invalid) :: (path \<times> nat node)]
     = ([''a...tmp.123''], None)"
  by (simp add: path_defs fs_defs codec_defs store_defs)

section \<open>Versions\<close>

text \<open>
  Claim C3.  Two \<open>Update\<close> calls of the generic variant on the key \<open>k\<close>, starting from a
  store without it, both succeed without a conflict.  The entry that is stored after
  them reads back with version 0, not 2: the file holds the empty JSON object, the
  version that the attempt computed (\<open>old.version + 1\<close>) is not written.
\<close>

theorem version_not_stored:
  "Update_generic db0 ''k'' increment (\<lambda>n. quiet) emptyRoot = Some (storeWithK, Some 1, None)
   \<and> Update_generic db0 ''k'' increment (\<lambda>n. quiet) storeWithK = Some (storeWithK, Some 1, None)
   \<and> get db0 ''k'' storeWithK = (\<lparr>version = 0, doc = None\<rparr>, None)"
  by (simp add: scenario_defs path_defs fs_defs codec_defs store_defs)

section \<open>Concurrent increments\<close>

text \<open>
  Claim C5.  Two \<open>Update\<close> calls with unbounded retries (\<open>retries = -1\<close>) add one to the
  document of the key \<open>k\<close>, which was set to 0 before.  The second call runs from start
  to end while the first one waits for the lock.  The first call then finds the
  version it read (0) unchanged, commits, and both calls return the document 1.
  Afterwards \<open>Get\<close> returns no document, not 2.
\<close>

theorem concurrent_increments_are_lost:
  "SetWithRetry db0 ''k'' (Some 0) (- 1) (\<lambda>n. quiet) emptyRoot = Some (storeWithK, None)
   \<and> Update db0 ''k'' increment (- 1)
        (\<lambda>n. quiet\<lparr>others := (\<lambda>fs. case Update db0 ''k'' increment (- 1) (\<lambda>n. quiet) fs of
                                      Some r \<Rightarrow> fst r | None \<Rightarrow> fs)\<rparr>)
        storeWithK
      = Some (storeWithK, Some 1, None)
   \<and> Update db0 ''k'' increment (- 1) (\<lambda>n. quiet)
        (storeWithK @ [((True, [''db'', ''k...tmp.123'']), File (JObject []))])
      = Some (storeWithK @ [((True, [''db'', ''k...tmp.123'']), File (JObject []))], Some 1, None)
   \<and> Get db0 ''k'' storeWithK = (None, None)"
proof -
  let ?staged = "storeWithK @ [((True, [''db'', ''k...tmp.123'']), File (JObject []))]"
  have first_call: "Update db0 ''k'' increment (- 1) (\<lambda>n. quiet\<lparr>others := oth\<rparr>) storeWithK
      = Some (storeWithK, Some 1, None)"
    if "oth ?staged = ?staged" for oth :: "int fs \<Rightarrow> int fs"
    using that by (simp add: scenario_defs path_defs fs_defs codec_defs store_defs)
  have second_call: "Update db0 ''k'' increment (- 1) (\<lambda>n. quiet) ?staged
      = Some (?staged, Some 1, None)"
    by (simp add: scenario_defs path_defs fs_defs codec_defs store_defs)
  have "(case Update db0 ''k'' increment (- 1) (\<lambda>n. quiet) ?staged of
           Some r \<Rightarrow> fst r | None \<Rightarrow> ?staged) = ?staged"
    by (simp only: second_call option.case fst_conv)
  then have both: "Update db0 ''k'' increment (- 1)
        (\<lambda>n. quiet\<lparr>others := (\<lambda>fs. case Update db0 ''k'' increment (- 1) (\<lambda>n. quiet) fs of
                                      Some r \<Rightarrow> fst r | None \<Rightarrow> fs)\<rparr>)
        storeWithK
      = Some (storeWithK, Some 1, None)"
    by (rule first_call [where oth = "\<lambda>fs. case Update db0 ''k'' increment (- 1) (\<lambda>n. quiet) fs of
                                      Some r \<Rightarrow> fst r | None \<Rightarrow> fs"])
  have set0: "SetWithRetry db0 ''k'' (Some 0) (- 1) (\<lambda>n. quiet) emptyRoot = Some (storeWithK, None)"
    by (simp add: scenario_defs path_defs fs_defs codec_defs store_defs)
  have get2: "Get db0 ''k'' storeWithK = (None, None)"
    by (simp add: scenario_defs path_defs fs_defs codec_defs store_defs)
  from set0 both second_call get2 show ?thesis
    by (intro conjI)
qed

section \<open>Deleting\<close>

text \<open>
  Claim C8.  In the variant with a retry budget \<open>Delete\<close> passes \<open>retries = 0\<close>, so it
  makes no attempt and returns \<open>ErrConcurrentMod\<close>, also for a key that is absent.  In
  the generic variant \<open>Delete\<close> removes the file and \<open>Get\<close> then returns no document and
  no error, but the entry that a following \<open>Set\<close> stores reads back with version 0,
  not 1.
\<close>

theorem Delete_fails_and_version_after_Set_is_zero:
  "Delete db0 ''k'' (\<lambda>n. quiet) (emptyRoot :: int fs) = Some (emptyRoot, Some ErrConcurrentMod)
   \<and> Delete_generic db0 ''k'' (\<lambda>n. quiet) storeWithK
        = Some ([((True, [''db'']), Directory), ((True, [''db'', ''k...lock'']), File Invalid)], None)
   \<and> Get db0 ''k'' [((True, [''db'']), Directory),
                      ((True, [''db'', ''k...lock'']), File Invalid) :: (path \<times> int node)]
        = (None, None)
   \<and> Set_generic db0 ''k'' (Some 7) (\<lambda>n. quiet)
        [((True, [''db'']), Directory), ((True, [''db'', ''k...lock'']), File Invalid)]
        = Some (storeWithK, None)
   \<and> get db0 ''k'' storeWithK = (\<lparr>version = 0, doc = None\<rparr>, None)"
  by (simp add: scenario_defs path_defs fs_defs codec_defs store_defs)

section \<open>Keys and paths\<close>


lemma split_slash_not_Nil: "split_slash s \<noteq> []"
  by (induction s) simp_all

lemma split_slash_append_slash:
  "split_slash (a @ CHR ''/'' # b) = split_slash a @ split_slash b"
  by (induction a) (simp_all add: split_slash_not_Nil)

lemma split_slash_no_slash: "CHR ''/'' \<notin> set s \<Longrightarrow> split_slash s = [s]"
  by (induction s) auto

lemma split_slash_append_no_slash:
  "CHR ''/'' \<notin> set suf \<Longrightarrow>
   split_slash (s @ suf) = butlast (split_slash s) @ [last (split_slash s) @ suf]"
proof (induction s)
  case Nil
  then show ?case by (simp add: split_slash_no_slash)
next
  case (Cons c s)
  show ?case
  proof (cases "split_slash s")
    case Nil
    then show ?thesis using split_slash_not_Nil by blast
  next
    case (Cons x xs)
    then show ?thesis using Cons.IH [OF Cons.prems]
      by (cases xs) (simp_all add: split_slash_not_Nil)
  qed
qed


lemma is_rooted_append: "a \<noteq> [] \<Longrightarrow> is_rooted (a @ b) = is_rooted a"
  by (simp add: is_rooted_def)

lemma Join_root:
  "rt \<noteq> [] \<Longrightarrow>
   Join [rt, key] =
     (fst (Clean rt), foldl (clean_step (fst (Clean rt))) (snd (Clean rt)) (split_slash key))"
  by (simp add: Join_def Clean_def split_slash_append_slash is_rooted_append)


lemma clean_step_long: "2 < length s \<Longrightarrow> clean_step r stk s = stk @ [s]"
  by (auto simp add: clean_step_def)














section \<open>Listing a directory\<close>

lemma child_parent: "snd p \<noteq> [] \<Longrightarrow> parent p = d \<Longrightarrow> p = child d (last (snd p))"
  by (cases p) (auto simp add: parent_def child_def)

lemma parent_child: "parent (child d k) = d \<and> snd (child d k) \<noteq> [] \<and> last (snd (child d k)) = k"
  by (simp add: parent_def child_def)

lemma not_is_dir: "\<not> is_dir n \<longleftrightarrow> (\<exists>c. n = File c)"
  by (cases n) (simp_all add: is_dir_def)

lemma entry_listed:
  "(p, n) \<in> set fs \<Longrightarrow> snd p \<noteq> [] \<Longrightarrow> parent p = d \<Longrightarrow>
   (last (snd p), is_dir n) \<in> set (map (\<lambda>e. (last (snd (fst e)), is_dir (snd e)))
                 (filter (\<lambda>e. snd (fst e) \<noteq> [] \<and> parent (fst e) = d) fs))"
  by force

text \<open>
  Claim C10.  When \<open>List\<close> succeeds, the keys it returns are exactly the names \<open>k\<close>
  such that the child \<open>k\<close> of the prefix directory is a regular file and \<open>k\<close> ends
  neither in \<open>...tmp\<close> nor in \<open>...lock\<close>.  A key is therefore the last segment of
  the path of a file that lies in the prefix directory itself: it does not carry the
  prefix, and neither a subdirectory nor a file below one is returned.
\<close>

theorem List_returns_files_of_directory:
  assumes "distinct (map fst fs)"
    and "List db pfx fs = (keys, None)"
  shows "set keys =
     {k. (\<exists>c. map_of fs (child (Join [root db, ToSlash pfx]) k) = Some (File c))
          \<and> \<not> HasSuffix k ''...tmp'' \<and> \<not> HasSuffix k ''...lock''}"
proof -
  let ?d = "Join [root db, ToSlash pfx]"
  let ?ents = "map (\<lambda>e. (last (snd (fst e)), is_dir (snd e)))
                 (filter (\<lambda>e. snd (fst e) \<noteq> [] \<and> parent (fst e) = ?d) fs)"
  from assms(2) have rd: "ReadDir fs ?d = Inr ?ents"
    by (auto simp add: List_def ReadDir_def split: sum.splits option.splits node.splits)
  with assms(2) have keys: "keys = map fst (filter (\<lambda>ent. \<not> (snd ent \<or> HasSuffix (fst ent) ''...tmp''
                                  \<or> HasSuffix (fst ent) ''...lock'')) ?ents)"
    by (simp add: List_def)
  have ents: "(k, b) \<in> set ?ents \<longleftrightarrow> (\<exists>n. map_of fs (child ?d k) = Some n \<and> b = is_dir n)" for k b
  proof
    assume "(k, b) \<in> set ?ents"
    then obtain e where e: "e \<in> set fs" "snd (fst e) \<noteq> []" "parent (fst e) = ?d"
        "k = last (snd (fst e))" "b = is_dir (snd e)"
      by auto
    from e(2,3,4) have "fst e = child ?d k"
      using child_parent by blast
    with e(1) assms(1) have "map_of fs (child ?d k) = Some (snd e)"
      by (metis map_of_is_SomeI prod.collapse)
    with e(5) show "\<exists>n. map_of fs (child ?d k) = Some n \<and> b = is_dir n"
      by blast
  next
    assume "\<exists>n. map_of fs (child ?d k) = Some n \<and> b = is_dir n"
    then obtain n where n: "map_of fs (child ?d k) = Some n" "b = is_dir n"
      by blast
    then have "(child ?d k, n) \<in> set fs"
      by (simp add: map_of_SomeD)
    from entry_listed [OF this, of ?d] n(2) show "(k, b) \<in> set ?ents"
      by (simp add: parent_child)
  qed
  have "k \<in> set keys \<longleftrightarrow> (k, False) \<in> set ?ents \<and> \<not> HasSuffix k ''...tmp'' \<and> \<not> HasSuffix k ''...lock''" for k
    unfolding keys by force
  then show ?thesis
    unfolding ents by (auto simp add: not_is_dir)
qed

theorem List_returns_files_of_directory_witness:
  "distinct (map fst storeWithSubdir)
   \<and> List db0 ''sub'' storeWithSubdir = ([''x''], None)
   \<and> set [''x''] =
       {k. (\<exists>c. map_of storeWithSubdir (child (Join [root db0, ToSlash ''sub'']) k) = Some (File c))
            \<and> \<not> HasSuffix k ''...tmp'' \<and> \<not> HasSuffix k ''...lock''}"
proof -
  have a: "distinct (map fst storeWithSubdir)"
    by (simp add: storeWithSubdir_def)
  have b: "List db0 ''sub'' storeWithSubdir = ([''x''], None)"
    by (simp add: scenario_defs path_defs fs_defs store_defs)
  from List_returns_files_of_directory [OF a b] a b show ?thesis
    by blast
qed

section \<open>Opening a store\<close>

lemma initPath_is_child: "rt \<noteq> [] \<Longrightarrow> Join [rt, ''.filedb''] = child (Clean rt) ''.filedb''"
  by (simp add: Join_root split_slash_no_slash clean_step_def child_def)

lemma ReadDir_Inr_dir: "ReadDir fs d = Inr ents \<Longrightarrow> dir_exists fs d"
  by (auto simp add: ReadDir_def dir_exists_def split: option.splits node.splits)

lemma ReadDir_empty_no_child:
  assumes "ReadDir fs d = Inr []"
  shows "map_of fs (child d k) = None"
proof (rule ccontr)
  assume "map_of fs (child d k) \<noteq> None"
  then obtain n where "map_of fs (child d k) = Some n"
    by blast
  then have "(child d k, n) \<in> set fs"
    by (rule map_of_SomeD)
  then have "filter (\<lambda>e. snd (fst e) \<noteq> [] \<and> parent (fst e) = d) fs \<noteq> []"
    by (auto simp add: filter_empty_conv parent_def child_def
        intro!: bexI [where x = "(child d k, n)"])
  with assms show False
    by (auto simp add: ReadDir_def split: option.splits node.splits)
qed

text \<open>
  Claim C9.  For a root that is not the empty string: when the root is a directory
  without entries, \<open>Open\<close> creates the directory \<open>.filedb\<close> in it and succeeds; when
  the root has entries and no \<open>.filedb\<close>, \<open>Open\<close> returns an error and leaves the tree
  as it was; when the root has entries and \<open>.filedb\<close> is among them, \<open>Open\<close> succeeds
  and leaves the tree as it was.
\<close>

theorem Open_checks_marker:
  assumes "rt \<noteq> []"
  shows "(ReadDir fs (Clean rt) = Inr [] \<longrightarrow>
           Open rt fs = (fs @ [(Join [rt, ''.filedb''], Directory)], Some \<lparr>root = rt\<rparr>, None)
           \<and> map_of (fs @ [(Join [rt, ''.filedb''], Directory)]) (Join [rt, ''.filedb''])
               = Some Directory)
       \<and> (ReadDir fs (Clean rt) = Inr ents \<and> ents \<noteq> []
            \<and> map_of fs (Join [rt, ''.filedb'']) = None \<longrightarrow>
           Open rt fs = (fs, None, Some ErrRootNotEmpty))
       \<and> (ReadDir fs (Clean rt) = Inr ents \<and> ents \<noteq> []
            \<and> map_of fs (Join [rt, ''.filedb'']) = Some n \<longrightarrow>
           Open rt fs = (fs, Some \<lparr>root = rt\<rparr>, None))"
proof (intro conjI impI)
  assume e: "ReadDir fs (Clean rt) = Inr []"
  have ip: "Join [rt, ''.filedb''] = child (Clean rt) ''.filedb''"
    using assms by (rule initPath_is_child)
  have absent: "map_of fs (Join [rt, ''.filedb'']) = None"
    unfolding ip using e by (rule ReadDir_empty_no_child)
  have "dir_exists fs (parent (Join [rt, ''.filedb'']))"
    unfolding ip using ReadDir_Inr_dir [OF e] by (simp add: parent_def child_def)
  moreover have "snd (Join [rt, ''.filedb'']) \<noteq> []"
    unfolding ip by (simp add: child_def)
  ultimately have mk: "Mkdir fs (Join [rt, ''.filedb'']) = Inr (fs @ [(Join [rt, ''.filedb''], Directory)])"
    using absent by (simp add: Mkdir_def)
  show "Open rt fs = (fs @ [(Join [rt, ''.filedb''], Directory)], Some \<lparr>root = rt\<rparr>, None)"
    using assms e mk by (simp add: Open_def)
  show "map_of (fs @ [(Join [rt, ''.filedb''], Directory)]) (Join [rt, ''.filedb'']) = Some Directory"
    using absent by (simp add: map_add_def)
next
  assume "ReadDir fs (Clean rt) = Inr ents \<and> ents \<noteq> [] \<and> map_of fs (Join [rt, ''.filedb'']) = None"
  then show "Open rt fs = (fs, None, Some ErrRootNotEmpty)"
    using assms by (simp add: Open_def)
next
  assume "ReadDir fs (Clean rt) = Inr ents \<and> ents \<noteq> [] \<and> map_of fs (Join [rt, ''.filedb'']) = Some n"
  then show "Open rt fs = (fs, Some \<lparr>root = rt\<rparr>, None)"
    using assms by (simp add: Open_def)
qed

theorem Open_checks_marker_witness:
  "Open ''/db'' (emptyRoot :: int fs)
     = (emptyRoot @ [(Join [''/db'', ''.filedb''], Directory)], Some \<lparr>root = ''/db''\<rparr>, None)
   \<and> Open ''/db'' storeNoMarker = (storeNoMarker, None, Some ErrRootNotEmpty)
   \<and> Open ''/db'' storeWithSubdir = (storeWithSubdir, Some \<lparr>root = ''/db''\<rparr>, None)"
proof -
  have r: "''/db'' \<noteq> []"
    by simp
  have e1: "ReadDir (emptyRoot :: int fs) (Clean ''/db'') = Inr []"
    by (simp add: scenario_defs path_defs fs_defs store_defs)
  have e2: "ReadDir storeNoMarker (Clean ''/db'') = Inr [(''a'', False)]
      \<and> [(''a'', False)] \<noteq> []
      \<and> map_of storeNoMarker (Join [''/db'', ''.filedb'']) = None"
    by (simp add: scenario_defs path_defs fs_defs store_defs)
  have e3: "ReadDir storeWithSubdir (Clean ''/db'')
        = Inr [(''.filedb'', True), (''a'', False), (''a...lock'', False), (''sub'', True)]
      \<and> [(''.filedb'', True), (''a'', False), (''a...lock'', False), (''sub'', True)] \<noteq> []
      \<and> map_of storeWithSubdir (Join [''/db'', ''.filedb'']) = Some Directory"
    by (simp add: scenario_defs path_defs fs_defs store_defs)
  from Open_checks_marker [OF r, of emptyRoot] e1
  have "Open ''/db'' (emptyRoot :: int fs)
     = (emptyRoot @ [(Join [''/db'', ''.filedb''], Directory)], Some \<lparr>root = ''/db''\<rparr>, None)"
    by blast
  moreover from Open_checks_marker [OF r, of storeNoMarker "[(''a'', False)]"] e2
  have "Open ''/db'' storeNoMarker = (storeNoMarker, None, Some ErrRootNotEmpty)"
    by blast
  moreover from Open_checks_marker [OF r, of storeWithSubdir
      "[(''.filedb'', True), (''a'', False), (''a...lock'', False), (''sub'', True)]" Directory] e3
  have "Open ''/db'' storeWithSubdir = (storeWithSubdir, Some \<lparr>root = ''/db''\<rparr>, None)"
    by blast
  ultimately show ?thesis
    by blast
qed

section \<open>Attempts that fail\<close>

lemma joined_lock:
  "join_slash (dropWhile (\<lambda>e. e = []) [rt, key @ ''...lock''])
     = join_slash (dropWhile (\<lambda>e. e = []) [rt, key]) @ ''...lock''"
  by simp

lemma split_slash_snoc: "split_slash s = butlast (split_slash s) @ [last (split_slash s)]"
  by (simp add: split_slash_not_Nil)

lemma clean_step_not_snoc_long:
  "2 < length t \<Longrightarrow> t \<noteq> l \<Longrightarrow> clean_step r S l \<noteq> S @ [t]"
  by (auto simp add: clean_step_def dest: arg_cong [where f = length])

lemma Clean_lock_differs: "Clean (s @ ''...lock'') \<noteq> Clean s"
proof (cases "s = []")
  case True
  then show ?thesis by (simp add: Clean_def is_rooted_def clean_step_def)
next
  case False
  let ?r = "is_rooted s"
  let ?S = "foldl (clean_step ?r) [] (butlast (split_slash s))"
  let ?l = "last (split_slash s)"
  have long: "2 < length (?l @ ''...lock'')" by simp
  have "snd (Clean (s @ ''...lock'')) = ?S @ [?l @ ''...lock'']"
    using False
    by (simp add: Clean_def is_rooted_append split_slash_append_no_slash clean_step_long)
  moreover have "snd (Clean s) = clean_step ?r ?S ?l"
  proof -
    have "foldl (clean_step ?r) [] (split_slash s)
        = foldl (clean_step ?r) [] (butlast (split_slash s) @ [?l])"
      by (rule arg_cong [OF split_slash_snoc])
    then show ?thesis
      by (simp add: Clean_def)
  qed
  moreover have "clean_step ?r ?S ?l \<noteq> ?S @ [?l @ ''...lock'']"
    by (rule clean_step_not_snoc_long [OF long]) simp
  ultimately show ?thesis by metis
qed

lemma keyPath_not_lockPath: "lockPath rt key \<noteq> keyPath rt key"
  unfolding lockPath_def keyPath_def Join_def ToSlash_def joined_lock
  by (rule Clean_lock_differs)


lemma append_absent:
  "map_of fs f = None \<Longrightarrow> [f \<mapsto> x] ++ map_of fs = (map_of fs)(f \<mapsto> x)"
  by (auto simp add: fun_eq_iff map_add_def split: option.splits)

lemma Remove_file:
  "map_of fs f = Some (File c) \<Longrightarrow> map_of (fst (Remove fs f)) = (map_of fs)(f := None)"
  by (simp add: Remove_def delete_conv')

lemma Remove_failed_keeps: "Remove fs p = (fs1, Some e) \<Longrightarrow> fs1 = fs"
  by (auto simp add: Remove_def split: option.splits node.splits if_splits)

lemma Rename_failed_keeps: "Rename fs src dst = (fs5, Some e) \<Longrightarrow> fs5 = fs"
  by (auto simp add: Rename_def split: option.splits node.splits if_splits)

lemma CreateTemp_fresh:
  assumes "CreateTemp fs dir pattern rnds = Inr (fs1, f)"
  shows "map_of fs f = None \<and> map_of fs1 = (map_of fs)(f \<mapsto> File Invalid)"
proof -
  from assms obtain n where n: "f = child dir n" "fs1 = fs @ [(f, File Invalid)]"
      "\<not> exists_at fs (child dir n)"
    by (auto simp add: CreateTemp_def find_Some_iff split: if_splits option.splits)
  from n(1,3) have "map_of fs f = None"
    by (simp add: exists_at_def split: option.splits)
  with n(2) show ?thesis
    by (simp add: append_absent)
qed

lemma tmpFile_fresh:
  "tmpFile rt key fs rnds = Inr (fs1, f) \<Longrightarrow>
   map_of fs f = None \<and> map_of fs1 = (map_of fs)(f \<mapsto> File Invalid)"
  unfolding tmpFile_def by (rule CreateTemp_fresh)

lemma Lock_effect:
  assumes "Lock fs lp b = Inr fs4"
  shows "map_of fs4 = map_of fs \<or> map_of fs4 = (map_of fs)(lp \<mapsto> File Invalid)"
  using assms
  by (auto simp add: Lock_def append_absent split: if_splits option.splits node.splits)

lemma Remove_effect:
  "map_of (fst (Remove s p)) = (map_of s)(p := None)
   \<or> (fst (Remove s p) = s \<and> map_of s p = Some Directory)"
proof (cases "map_of s p")
  case None
  then have "(map_of s)(p := None) = map_of s"
    by (auto simp add: fun_eq_iff)
  with None show ?thesis
    by (simp add: Remove_def)
next
  case (Some n)
  then show ?thesis
    by (cases n) (simp_all add: Remove_def delete_conv')
qed

lemma do_staged_failed_frame:
  assumes run: "do_staged db key orc oldv nd f fs1 = (fsn, d, Some e)"
  shows "fsn = fs1
       \<or> fsn = AList.update f (File (Encode \<lparr>version = oldv + 1, doc = Some nd\<rparr>)) fs1
       \<or> map_of fsn
            = map_of (others orc (AList.update f (File (Encode \<lparr>version = oldv + 1, doc = Some nd\<rparr>)) fs1))
       \<or> map_of fsn
            = (map_of (others orc (AList.update f (File (Encode \<lparr>version = oldv + 1, doc = Some nd\<rparr>)) fs1)))
                (lockPath (root db) key \<mapsto> File Invalid)"
proof -
  let ?fs2 = "AList.update f (File (Encode \<lparr>version = oldv + 1, doc = Some nd\<rparr>)) fs1"
  let ?lp = "lockPath (root db) key"
  consider (early) "fsn = fs1" | (closed) "fsn = ?fs2" | (unlocked) "fsn = others orc ?fs2"
    | (locked) "Lock (others orc ?fs2) ?lp (lock_fails orc) = Inr fsn"
    using run
    by (auto simp add: do_staged_def Let_def
        split: if_splits sum.splits prod.splits dest: Rename_failed_keeps)
  then show ?thesis
  proof cases
    case locked
    from Lock_effect [OF this] show ?thesis by blast
  qed simp_all
qed


text \<open>
  Claim C7.  When an attempt ends in an error (of the first read, of the update
  function, of removing the entry, of creating, writing or closing the temporary
  file, of taking the lock, of the second read, a version conflict, or of the rename),
  the attempt has not changed the entry path of the key: it holds what it held before
  the attempt, or what the other writers left there when they ran on the tree with
  the staged file, while the attempt waited for the lock.  The temporary file that
  \<open>tmpFile\<close> created for the attempt does not exist afterwards, unless the other writers
  have put a directory in its place.  In particular, when no other writer changes the
  tree, the entry path holds what it held before and the temporary file is gone.
  (By \<open>do_never_conflicts\<close> the comparison of the versions never fails in this code;
  the case analysis covers that branch all the same.)
\<close>

theorem failed_attempt_leaves_entry:
  assumes run: "do db key apply orc fs = (fs', d, Some e)"
  shows "(map_of fs' (keyPath (root db) key) = map_of fs (keyPath (root db) key)
          \<or> (\<exists>fs1 f. tmpFile (root db) key fs (rands orc) = Inr (fs1, f)
                \<and> map_of fs' (keyPath (root db) key)
                    = map_of (others orc
                        (AList.update f
                           (File (Encode \<lparr>version = version (fst (get db key fs)) + 1,
                                          doc = fst (apply (doc (fst (get db key fs))))\<rparr>)) fs1))
                        (keyPath (root db) key)))
       \<and> (\<forall>fs1 f. tmpFile (root db) key fs (rands orc) = Inr (fs1, f) \<longrightarrow>
             map_of fs' f = None
             \<or> map_of (others orc
                   (AList.update f
                      (File (Encode \<lparr>version = version (fst (get db key fs)) + 1,
                                     doc = fst (apply (doc (fst (get db key fs))))\<rparr>)) fs1)) f
                = Some Directory)
       \<and> (others orc = (\<lambda>s. s) \<longrightarrow>
             map_of fs' (keyPath (root db) key) = map_of fs (keyPath (root db) key)
             \<and> (\<forall>fs1 f. tmpFile (root db) key fs (rands orc) = Inr (fs1, f) \<longrightarrow> map_of fs' f = None))"
proof -
  let ?kp = "keyPath (root db) key"
  let ?lp = "lockPath (root db) key"
  let ?enc = "Encode \<lparr>version = version (fst (get db key fs)) + 1,
                       doc = fst (apply (doc (fst (get db key fs))))\<rparr>"
  have kl: "?kp \<noteq> ?lp"
    using keyPath_not_lockPath [of "root db" key] by simp
  consider (untouched) "fs' = fs"
    | (staged) fs1 f fsn nd where
        "tmpFile (root db) key fs (rands orc) = Inr (fs1, f)"
        "fst (apply (doc (fst (get db key fs)))) = Some nd"
        "do_staged db key orc (version (fst (get db key fs))) nd f fs1 = (fsn, d, Some e)"
        "fs' = fst (Remove fsn f)"
    using run
    by (auto simp add: do_def split: prod.splits if_splits option.splits sum.splits
        dest: Remove_failed_keeps)
  then show ?thesis
  proof cases
    case untouched
    then show ?thesis
      by (auto dest: tmpFile_fresh)
  next
    case staged
    let ?fs2 = "AList.update f (File ?enc) fs1"
    let ?m3 = "map_of (others orc ?fs2)"
    from tmpFile_fresh [OF staged(1)]
    have fresh: "map_of fs f = None" and m1: "map_of fs1 = (map_of fs)(f \<mapsto> File Invalid)"
      by simp_all
    have m2: "map_of ?fs2 = (map_of fs)(f \<mapsto> File ?enc)"
      by (simp add: update_conv' m1)
    have same: "(fs1a, fa) = (fs1, f)" if "tmpFile (root db) key fs (rands orc) = Inr (fs1a, fa)"
      for fs1a fa
      using that staged(1) by simp
    from do_staged_failed_frame [OF staged(3)] staged(2)
    consider (before) "fsn = fs1 \<or> fsn = ?fs2"
      | (after) "map_of fsn = ?m3 \<or> map_of fsn = ?m3(?lp \<mapsto> File Invalid)"
      by auto
    then have facts:
        "(map_of fs' ?kp = map_of fs ?kp \<or> map_of fs' ?kp = ?m3 ?kp)
         \<and> (map_of fs' f = None \<or> ?m3 f = Some Directory)
         \<and> (others orc = (\<lambda>s. s) \<longrightarrow> map_of fs' ?kp = map_of fs ?kp \<and> map_of fs' f = None)"
    proof cases
      case before
      then obtain c where "map_of fsn f = Some (File c)"
          and rest: "\<And>p. p \<noteq> f \<Longrightarrow> map_of fsn p = map_of fs p"
        using m1 m2 by auto
      from Remove_file [OF this(1)] staged(4) have "map_of fs' = (map_of fsn)(f := None)"
        by simp
      with rest fresh have "map_of fs' p = map_of fs p" for p
        by (cases "p = f") simp_all
      with fresh show ?thesis
        by simp
    next
      case after
      then have at_kp: "map_of fsn ?kp = ?m3 ?kp"
        using kl by auto
      from Remove_effect [of fsn f] staged(4)
      consider (removed) "map_of fs' = (map_of fsn)(f := None)"
        | (kept) "fs' = fsn" "map_of fsn f = Some Directory"
        by auto
      then show ?thesis
      proof cases
        case removed
        have "map_of fs' ?kp = map_of fs ?kp \<or> map_of fs' ?kp = ?m3 ?kp"
        proof (cases "?kp = f")
          case True
          with removed fresh show ?thesis by simp
        next
          case False
          with removed at_kp show ?thesis by simp
        qed
        moreover have "map_of fs' f = None"
          using removed by simp
        moreover have "map_of fs' ?kp = map_of fs ?kp" if "others orc = (\<lambda>s. s)"
        proof (cases "?kp = f")
          case True
          with removed fresh show ?thesis by simp
        next
          case False
          with removed at_kp that m2 show ?thesis by simp
        qed
        ultimately show ?thesis
          by blast
      next
        case kept
        from after kept(2) have dir: "?m3 f = Some Directory"
          by (auto split: if_splits)
        have "others orc \<noteq> (\<lambda>s. s)"
        proof
          assume "others orc = (\<lambda>s. s)"
          with dir m2 show False by simp
        qed
        with kept(1) at_kp dir show ?thesis
          by simp
      qed
    qed
    show ?thesis
    proof (intro conjI allI impI)
      from facts staged(1)
      show "map_of fs' ?kp = map_of fs ?kp
          \<or> (\<exists>fs1 f. tmpFile (root db) key fs (rands orc) = Inr (fs1, f)
                \<and> map_of fs' ?kp = map_of (others orc (AList.update f (File ?enc) fs1)) ?kp)"
        by blast
    next
      fix fs1a fa
      assume "tmpFile (root db) key fs (rands orc) = Inr (fs1a, fa)"
      from same [OF this] have "fs1a = fs1" and "fa = f"
        by simp_all
      with facts
      show "map_of fs' fa = None
          \<or> map_of (others orc (AList.update fa (File ?enc) fs1a)) fa = Some Directory"
        by blast
    next
      assume "others orc = (\<lambda>s. s)"
      with facts show "map_of fs' ?kp = map_of fs ?kp"
        by blast
    next
      fix fs1a fa
      assume "others orc = (\<lambda>s. s)"
        and "tmpFile (root db) key fs (rands orc) = Inr (fs1a, fa)"
      from same [OF this(2)] have "fa = f"
        by simp
      with \<open>others orc = (\<lambda>s. s)\<close> facts
      show "map_of fs' fa = None"
        by blast
    qed
  qed
qed

theorem failed_attempt_leaves_entry_witness:
  "do db0 ''k'' increment (quiet\<lparr>lock_fails := True\<rparr>) storeWithK
     = (storeWithK, None, Some IOError)
   \<and> others (quiet\<lparr>lock_fails := True\<rparr> :: int chance) = (\<lambda>s. s)
   \<and> map_of storeWithK (keyPath (root db0) ''k'') = Some (File (JObject []))
   \<and> map_of storeWithK (True, [''db'', ''k...tmp.123'']) = None
   \<and> do db0 ''k'' increment
         (quiet\<lparr>others := AList.update (True, [''db'', ''k'']) (File Invalid)\<rparr>) storeWithK
     = ([((True, [''db'']), Directory),
         ((True, [''db'', ''k...lock'']), File Invalid),
         ((True, [''db'', ''k'']), File Invalid)], None, Some EncodingError)
   \<and> map_of [((True, [''db'']), Directory),
              ((True, [''db'', ''k...lock'']), File Invalid),
              ((True, [''db'', ''k'']), File Invalid) :: (path \<times> int node)]
         (True, [''db'', ''k...tmp.123'']) = None"
proof -
  let ?tmp = "(True, [''db'', ''k...tmp.123''])"
  let ?st1 = "storeWithK @ [(?tmp, File Invalid)]"
  let ?spoil = "AList.update (True, [''db'', ''k'']) (File Invalid) :: int fs \<Rightarrow> int fs"
  let ?spoiled = "[((True, [''db'']), Directory),
                   ((True, [''db'', ''k...lock'']), File Invalid),
                   ((True, [''db'', ''k'']), File Invalid)] :: int fs"
  have r1: "do db0 ''k'' increment (quiet\<lparr>lock_fails := True\<rparr>) storeWithK
       = (storeWithK, None, Some IOError)"
    by (simp add: scenario_defs path_defs fs_defs codec_defs store_defs)
  have o1: "others (quiet\<lparr>lock_fails := True\<rparr> :: int chance) = (\<lambda>s. s)"
    by (simp add: quiet_def)
  have t1: "tmpFile (root db0) ''k'' storeWithK (rands (quiet\<lparr>lock_fails := True\<rparr> :: int chance))
       = Inr (?st1, ?tmp)"
    by (simp add: scenario_defs path_defs fs_defs codec_defs store_defs)
  have e1: "map_of storeWithK (keyPath (root db0) ''k'') = Some (File (JObject []))"
    by (simp add: scenario_defs path_defs)
  from failed_attempt_leaves_entry [OF r1] o1 t1
  have gone1: "map_of storeWithK ?tmp = None"
    by blast
  have r2: "do db0 ''k'' increment (quiet\<lparr>others := ?spoil\<rparr>) storeWithK
       = (?spoiled, None, Some EncodingError)"
    by (simp add: scenario_defs path_defs fs_defs codec_defs store_defs)
  have t2: "tmpFile (root db0) ''k'' storeWithK (rands (quiet\<lparr>others := ?spoil\<rparr>))
       = Inr (?st1, ?tmp)"
    by (simp add: scenario_defs path_defs fs_defs codec_defs store_defs)
  have no_dir: "map_of (others (quiet\<lparr>others := ?spoil\<rparr>) (AList.update ?tmp (File c) ?st1)) ?tmp
       \<noteq> Some Directory" for c
    by (simp add: scenario_defs quiet_def)
  from failed_attempt_leaves_entry [OF r2] t2 no_dir
  have gone2: "map_of ?spoiled ?tmp = None"
    by blast
  from r1 o1 e1 gone1 r2 gone2 show ?thesis
    by (intro conjI)
qed

end
